theory Spec2Isabelle
  imports Complex_Main "HOL-Library.Word" "HOL-Library.Sublist"
begin

section \<open>JavaScript values\<close>

text \<open>
  A JavaScript string is a sequence of UTF-16 code units, a \<open>Buffer\<close> a sequence of
  bytes. Numbers are modelled as the rationals together with \<open>NaN\<close>: the rounding of
  IEEE doubles and the two infinities are outside the model.
\<close>

type_synonym jsstring = "16 word list"
type_synonym bytes = "8 word list"

definition ascii :: "string \<Rightarrow> jsstring" where
  "ascii s = map of_char s"

datatype number = Finite rat | NaN

datatype jsval =
    VUndefined
  | VNull
  | VBool bool
  | VNum number
  | VStr jsstring
  | VArr "jsval list"
  | VObj "(jsstring \<times> jsval) list"

text \<open>
  What a \<open>throw\<close> or a rejected promise carries: \<open>Error\<close> is \<open>new Error(message)\<close>,
  \<open>TypeError\<close> is raised by the language itself (a property read on \<open>null\<close>, a call of
  something that is no function, an object with no primitive value), \<open>Rejected\<close> is a
  failure reported by a library (axios, sharp).
\<close>

datatype error = Error jsstring | TypeError | Rejected jsstring

definition andThen :: "error + 'a \<Rightarrow> ('a \<Rightarrow> error + 'b) \<Rightarrow> error + 'b" where
  "andThen m f = (case m of Inl e \<Rightarrow> Inl e | Inr x \<Rightarrow> f x)"

fun num_sub :: "number \<Rightarrow> number \<Rightarrow> number" where
  "num_sub (Finite a) (Finite b) = Finite (a - b)"
| "num_sub _ _ = NaN"

fun num_add :: "number \<Rightarrow> number \<Rightarrow> number" where
  "num_add (Finite a) (Finite b) = Finite (a + b)"
| "num_add _ _ = NaN"

fun num_gt :: "number \<Rightarrow> number \<Rightarrow> bool" where
  "num_gt (Finite a) (Finite b) = (b < a)"
| "num_gt _ _ = False"

fun Math_abs :: "number \<Rightarrow> number" where
  "Math_abs (Finite a) = Finite \<bar>a\<bar>"
| "Math_abs NaN = NaN"

section \<open>The platform\<close>

text \<open>
  The request handed to \<open>axios.post\<close>. The instruction text around the pressure context,
  the mime type and the generation parameters are constants of the source, so a request is
  determined by the URL, the pressure context and the encoded image.
\<close>

record request =
  url :: jsstring
  pressure_context :: jsstring
  inline_data :: jsstring

text \<open>
  Everything the code uses and does not define: the conversions between numbers and text
  of the language, \<open>JSON.parse\<close> (\<open>None\<close> when it throws a SyntaxError), the two environment
  variables (\<open>None\<close> when undefined), the HTTP call (its result is \<open>response.data\<close>) and the
  image library: \<open>sharp(buffer).metadata()\<close> gives the width and the height,
  \<open>sharp_composite\<close> is composite, jpeg and toBuffer on the overlay text.
\<close>

record platform =
  stringToNumber :: "jsstring \<Rightarrow> number"
  numberToString :: "number \<Rightarrow> jsstring"
  toFixed2 :: "number \<Rightarrow> jsstring"
  JSON_parse :: "jsstring \<Rightarrow> jsval option"
  GEMINI_API_KEY :: "jsstring option"
  GEMINI_API_URL :: "jsstring option"
  axios_post :: "request \<Rightarrow> error + jsval"
  sharp_metadata :: "bytes \<Rightarrow> error + jsval \<times> jsval"
  sharp_composite :: "bytes \<Rightarrow> jsstring \<Rightarrow> error + bytes"

section \<open>Conversions and operators\<close>

text \<open>
  ToString. An array is joined with commas, \<open>null\<close> and \<open>undefined\<close> elements giving the
  empty text. An object made by \<open>JSON.parse\<close> inherits \<open>Object.prototype.toString\<close>; when it
  has an own property \<open>toString\<close> (never a function in parsed JSON), no primitive value can
  be found and a TypeError is thrown.
\<close>

fun ToString :: "platform \<Rightarrow> jsval \<Rightarrow> error + jsstring"
  and joinElements :: "platform \<Rightarrow> jsval list \<Rightarrow> error + jsstring" where
  "ToString p VUndefined = Inr (ascii ''undefined'')"
| "ToString p VNull = Inr (ascii ''null'')"
| "ToString p (VBool b) = Inr (ascii (if b then ''true'' else ''false''))"
| "ToString p (VNum n) = Inr (numberToString p n)"
| "ToString p (VStr s) = Inr s"
| "ToString p (VArr vs) = joinElements p vs"
| "ToString p (VObj kvs) =
     (if map_of kvs (ascii ''toString'') \<noteq> None then Inl TypeError
      else Inr (ascii ''[object Object]''))"
| "joinElements p [] = Inr []"
| "joinElements p (v # vs) =
     andThen (if v = VUndefined \<or> v = VNull then Inr [] else ToString p v)
       (\<lambda>s. if vs = [] then Inr s
            else andThen (joinElements p vs) (\<lambda>r. Inr (s @ ascii '','' @ r)))"

fun ToPrimitive :: "platform \<Rightarrow> jsval \<Rightarrow> error + jsval" where
  "ToPrimitive p (VArr vs) = andThen (ToString p (VArr vs)) (\<lambda>s. Inr (VStr s))"
| "ToPrimitive p (VObj kvs) = andThen (ToString p (VObj kvs)) (\<lambda>s. Inr (VStr s))"
| "ToPrimitive p v = Inr v"

text \<open>ToNumber on a primitive value (the last equation is never reached after ToPrimitive).\<close>

fun primToNumber :: "platform \<Rightarrow> jsval \<Rightarrow> number" where
  "primToNumber p VUndefined = NaN"
| "primToNumber p VNull = Finite 0"
| "primToNumber p (VBool b) = Finite (if b then 1 else 0)"
| "primToNumber p (VNum n) = n"
| "primToNumber p (VStr s) = stringToNumber p s"
| "primToNumber p v = NaN"

definition ToNumber :: "platform \<Rightarrow> jsval \<Rightarrow> error + number" where
  "ToNumber p v = andThen (ToPrimitive p v) (\<lambda>q. Inr (primToNumber p q))"

text \<open>\<open>a - b\<close>, and \<open>a > n\<close> for a number \<open>n\<close>: both operands are converted to numbers.\<close>

definition js_sub :: "platform \<Rightarrow> jsval \<Rightarrow> jsval \<Rightarrow> error + number" where
  "js_sub p a b =
     andThen (ToNumber p a) (\<lambda>x. andThen (ToNumber p b) (\<lambda>y. Inr (num_sub x y)))"

definition js_gt :: "platform \<Rightarrow> jsval \<Rightarrow> number \<Rightarrow> error + bool" where
  "js_gt p a n = andThen (ToNumber p a) (\<lambda>x. Inr (num_gt x n))"

text \<open>\<open>a + b\<close>: concatenation as soon as one primitive operand is a string.\<close>

fun isString :: "jsval \<Rightarrow> bool" where
  "isString (VStr s) = True"
| "isString v = False"

definition js_add :: "platform \<Rightarrow> jsval \<Rightarrow> jsval \<Rightarrow> error + jsval" where
  "js_add p a b =
     andThen (ToPrimitive p a) (\<lambda>x. andThen (ToPrimitive p b) (\<lambda>y.
       if isString x \<or> isString y
       then andThen (ToString p x) (\<lambda>s. andThen (ToString p y) (\<lambda>t. Inr (VStr (s @ t))))
       else Inr (VNum (num_add (primToNumber p x) (primToNumber p y)))))"

text \<open>\<open>!v\<close> holds for the falsy values.\<close>

fun falsy :: "jsval \<Rightarrow> bool" where
  "falsy VUndefined = True"
| "falsy VNull = True"
| "falsy (VBool b) = (\<not> b)"
| "falsy (VNum n) = (n = Finite 0 \<or> n = NaN)"
| "falsy (VStr s) = (s = [])"
| "falsy v = False"

text \<open>
  Reading a property that no prototype defines (\<open>candidates\<close>, \<open>content\<close>, \<open>parts\<close>,
  \<open>text\<close>, \<open>leaks\<close>, \<open>confidence\<close>, \<open>description\<close>, \<open>evidence\<close>, \<open>x\<close>, \<open>y\<close>,
  \<open>width\<close>, \<open>height\<close>): the own property of an object, \<open>undefined\<close> on any other value,
  a TypeError on \<open>null\<close> and \<open>undefined\<close>. With \<open>?.\<close> the last two give \<open>undefined\<close>.
\<close>

fun getProp :: "jsval \<Rightarrow> jsstring \<Rightarrow> error + jsval" where
  "getProp VUndefined k = Inl TypeError"
| "getProp VNull k = Inl TypeError"
| "getProp (VObj kvs) k = Inr (case map_of kvs k of None \<Rightarrow> VUndefined | Some v \<Rightarrow> v)"
| "getProp v k = Inr VUndefined"

fun optProp :: "jsval \<Rightarrow> jsstring \<Rightarrow> jsval" where
  "optProp (VObj kvs) k = (case map_of kvs k of None \<Rightarrow> VUndefined | Some v \<Rightarrow> v)"
| "optProp v k = VUndefined"

text \<open>\<open>v?.[0]\<close>: the first element of an array, the first code unit of a string.\<close>

fun optIndex0 :: "jsval \<Rightarrow> jsval" where
  "optIndex0 (VArr (v # vs)) = v"
| "optIndex0 (VStr (c # cs)) = VStr [c]"
| "optIndex0 (VObj kvs) = (case map_of kvs (ascii ''0'') of None \<Rightarrow> VUndefined | Some v \<Rightarrow> v)"
| "optIndex0 v = VUndefined"

section \<open>The pressure context (gemini.js, lines 28 to 43)\<close>

definition significantMessage :: jsstring where
  "significantMessage = [0x26A0, 0xFE0F] @ ascii
     '' ALERT: Significant pressure drop detected (>3 PSI) - Actively search for visible leak evidence!''"

definition moderateMessage :: jsstring where
  "moderateMessage = [0x26A0, 0xFE0F] @ ascii
     '' WARNING: Moderate pressure drop detected (>1.5 PSI) - Examine carefully for leaks.''"

definition normalMessage :: jsstring where
  "normalMessage = [0x2713] @ ascii
     '' Normal pressure difference (<1.5 PSI) - Only flag OBVIOUS visible damage.''"

definition tierMessage :: "number \<Rightarrow> jsstring" where
  "tierMessage pressureDiff =
     (if num_gt pressureDiff (Finite 3) then significantMessage
      else if num_gt pressureDiff (Finite (3 / 2)) then moderateMessage
      else normalMessage)"

definition contextText :: "jsstring \<Rightarrow> jsstring \<Rightarrow> jsstring \<Rightarrow> jsstring \<Rightarrow> jsstring" where
  "contextText e1 e2 d m =
     ascii ''\<newline>SYSTEM PRESSURE DATA:\<newline>- End 1 Pressure: '' @ e1
     @ ascii '' PSI\<newline>- End 2 Pressure: '' @ e2
     @ ascii '' PSI\<newline>- Pressure Difference: '' @ d
     @ ascii '' PSI\<newline>\<newline>'' @ m @ ascii ''\<newline>''"

text \<open>The default value \<open>null\<close> of the two optional parameters.\<close>

definition defaultNull :: "jsval \<Rightarrow> jsval" where
  "defaultNull v = (if v = VUndefined then VNull else v)"

definition pressureContext :: "platform \<Rightarrow> jsval \<Rightarrow> jsval \<Rightarrow> error + jsstring" where
  "pressureContext p end1Pressure end2Pressure =
     (if end1Pressure \<noteq> VNull \<and> end2Pressure \<noteq> VNull
      then andThen (js_sub p end1Pressure end2Pressure) (\<lambda>d.
           let pressureDiff = Math_abs d in
           andThen (ToString p end1Pressure) (\<lambda>e1.
           andThen (ToString p end2Pressure) (\<lambda>e2.
             Inr (contextText e1 e2 (toFixed2 p pressureDiff) (tierMessage pressureDiff)))))
      else Inr [])"

section \<open>The response text (gemini.js, lines 132 to 155)\<close>

text \<open>\<open>response.data?.candidates?.[0]?.content?.parts?.[0]?.text\<close>\<close>

definition responseText :: "jsval \<Rightarrow> jsval" where
  "responseText data =
     optProp (optIndex0 (optProp (optProp (optIndex0 (optProp data (ascii ''candidates'')))
       (ascii ''content'')) (ascii ''parts''))) (ascii ''text'')"

definition dropNewline :: "jsstring \<Rightarrow> jsstring" where
  "dropNewline s = (case s of [] \<Rightarrow> [] | c # cs \<Rightarrow> if c = 0x0A then cs else c # cs)"

text \<open>
  \<open>s.replace(/fence\n?/g, "")\<close> for a fence without special characters: every match,
  found from left to right, is removed together with the line feed that follows it.
\<close>

function removeFences :: "jsstring \<Rightarrow> jsstring \<Rightarrow> jsstring" where
  "removeFences fence [] = []"
| "removeFences fence (c # cs) =
     (if fence \<noteq> [] \<and> prefix fence (c # cs)
      then removeFences fence (dropNewline (drop (length fence) (c # cs)))
      else c # removeFences fence cs)"
  by pat_completeness auto
termination
proof (relation "measure (\<lambda>(fence, s). length s)")
  show "wf (measure (\<lambda>(fence :: jsstring, s :: jsstring). length s))"
    by simp
next
  fix fence :: jsstring and c cs
  assume match: "fence \<noteq> [] \<and> prefix fence (c # cs)"
  have shorter: "length (dropNewline t) \<le> length t" for t
    by (simp add: dropNewline_def split: list.split)
  have "length (drop (length fence) (c # cs)) < length (c # cs)"
    using match by (cases fence) simp_all
  with shorter [of "drop (length fence) (c # cs)"]
  show "((fence, dropNewline (drop (length fence) (c # cs))), fence, c # cs)
          \<in> measure (\<lambda>(fence, s). length s)"
    by simp
next
  fix fence :: jsstring and c cs
  show "((fence, cs), fence, c # cs) \<in> measure (\<lambda>(fence, s). length s)"
    by simp
qed

text \<open>The white space and line terminators that \<open>trim\<close> removes.\<close>

definition isWhiteSpace :: "16 word \<Rightarrow> bool" where
  "isWhiteSpace c =
     (c \<in> {0x09, 0x0A, 0x0B, 0x0C, 0x0D, 0x20, 0xA0, 0x1680, 0x2028, 0x2029, 0x202F,
            0x205F, 0x3000, 0xFEFF}
      \<or> (0x2000 \<le> c \<and> c \<le> 0x200A))"

definition trim :: "jsstring \<Rightarrow> jsstring" where
  "trim s = rev (dropWhile isWhiteSpace (rev (dropWhile isWhiteSpace s)))"

definition cleanResponse :: "jsstring \<Rightarrow> jsstring" where
  "cleanResponse t =
     trim (removeFences (ascii ''```'') (removeFences (ascii ''```json'') t))"

section \<open>The confidence filter (gemini.js, lines 157 to 160)\<close>

definition isHighConfidence :: "jsval \<Rightarrow> error + bool" where
  "isHighConfidence leak =
     andThen (getProp leak (ascii ''confidence''))
       (\<lambda>c. Inr (c = VStr (ascii ''high'') \<or> c = VStr (ascii ''very high'')))"

fun filterLeaks :: "jsval list \<Rightarrow> error + jsval list" where
  "filterLeaks [] = Inr []"
| "filterLeaks (leak # leaks) =
     andThen (isHighConfidence leak) (\<lambda>keep.
     andThen (filterLeaks leaks) (\<lambda>kept. Inr (if keep then leak # kept else kept)))"

text \<open>
  \<open>leaks?.filter(...) || []\<close> on the value of \<open>leakData.leaks\<close>: only an array has a
  \<open>filter\<close> that can be called.
\<close>

fun highConfidenceLeaks :: "jsval \<Rightarrow> error + jsval list" where
  "highConfidenceLeaks VUndefined = Inr []"
| "highConfidenceLeaks VNull = Inr []"
| "highConfidenceLeaks (VArr leaks) = filterLeaks leaks"
| "highConfidenceLeaks v = Inl TypeError"

section \<open>Log lines\<close>

text \<open>
  What \<open>console.log\<close> prints is not modelled, but each value interpolated in a logged
  template is converted to a string, and that conversion can throw.
\<close>

fun printable :: "platform \<Rightarrow> jsval list \<Rightarrow> error + unit" where
  "printable p [] = Inr ()"
| "printable p (v # vs) = andThen (ToString p v) (\<lambda>s. printable p vs)"

definition orElse :: "jsval \<Rightarrow> jsstring \<Rightarrow> jsval" where
  "orElse v s = (if falsy v then VStr s else v)"

text \<open>Lines 180 to 183.\<close>

fun logLeaks :: "platform \<Rightarrow> jsval list \<Rightarrow> error + unit" where
  "logLeaks p [] = Inr ()"
| "logLeaks p (leak # leaks) =
     andThen (getProp leak (ascii ''description'')) (\<lambda>description.
     andThen (getProp leak (ascii ''evidence'')) (\<lambda>evidence.
     andThen (printable p [description, orElse evidence (ascii ''N/A'')]) (\<lambda>u.
     logLeaks p leaks)))"

section \<open>The overlay (gemini.js, lines 209 to 255)\<close>

text \<open>The decimal numeral of an array index or a length.\<close>

fun decimal :: "nat \<Rightarrow> jsstring" where
  "decimal n =
     (if n < 10 then [of_nat (48 + n)] else decimal (n div 10) @ [of_nat (48 + n mod 10)])"

declare decimal.simps [simp del]

definition labelText :: "nat \<Rightarrow> jsstring" where
  "labelText index = ascii ''LEAK #'' @ decimal (index + 1)"

definition labelWidth :: "jsstring \<Rightarrow> nat" where
  "labelWidth t = length t * 10 + 10"

text \<open>\<open>y > 30 ? y - 10 : y + height + 20\<close>\<close>

definition labelY :: "platform \<Rightarrow> jsval \<Rightarrow> jsval \<Rightarrow> error + jsval" where
  "labelY p y height =
     andThen (js_gt p y (Finite 30)) (\<lambda>above.
       if above then andThen (js_sub p y (VNum (Finite 10))) (\<lambda>n. Inr (VNum n))
       else andThen (js_add p y height) (\<lambda>s. js_add p s (VNum (Finite 20))))"

text \<open>
  What the template of one detection interpolates, and the attributes of the label
  background: the first rectangle takes \<open>x\<close>, \<open>y\<close>, \<open>width\<close> and \<open>height\<close> as they are,
  the label background is at \<open>(x - 5, labelY - 18)\<close>, the label text at \<open>(x, labelY - 3)\<close>.
\<close>

record svgElement =
  rect_x :: jsval
  rect_y :: jsval
  rect_width :: jsval
  rect_height :: jsval
  label_x :: number
  label_y :: number
  label_width :: nat
  label_height :: nat
  label_fill :: jsstring
  label_opacity :: jsstring
  text_x :: jsval
  text_y :: number
  label_text :: jsstring

definition leakElement :: "platform \<Rightarrow> nat \<Rightarrow> jsval \<Rightarrow> error + svgElement" where
  "leakElement p index leak =
     andThen (getProp leak (ascii ''x'')) (\<lambda>x.
     andThen (getProp leak (ascii ''y'')) (\<lambda>y.
     andThen (getProp leak (ascii ''width'')) (\<lambda>width.
     andThen (getProp leak (ascii ''height'')) (\<lambda>height.
     andThen (getProp leak (ascii ''confidence'')) (\<lambda>confidence.
     andThen (getProp leak (ascii ''description'')) (\<lambda>description.
     andThen (printable p [x, y, width, height, confidence,
                orElse description (ascii ''no description'')]) (\<lambda>u.
     andThen (labelY p y height) (\<lambda>anchor.
     andThen (js_sub p x (VNum (Finite 5))) (\<lambda>lx.
     andThen (js_sub p anchor (VNum (Finite 18))) (\<lambda>ly.
     andThen (js_sub p anchor (VNum (Finite 3))) (\<lambda>ty.
       Inr \<lparr>rect_x = x, rect_y = y, rect_width = width, rect_height = height,
            label_x = lx, label_y = ly, label_width = labelWidth (labelText index),
            label_height = 22, label_fill = ascii ''red'', label_opacity = ascii ''0.9'',
            text_x = x, text_y = ty, label_text = labelText index\<rparr>)))))))))))"

definition renderElement :: "platform \<Rightarrow> svgElement \<Rightarrow> error + jsstring" where
  \<open>renderElement p el =
     andThen (ToString p (rect_x el)) (\<lambda>x.
     andThen (ToString p (rect_y el)) (\<lambda>y.
     andThen (ToString p (rect_width el)) (\<lambda>width.
     andThen (ToString p (rect_height el)) (\<lambda>height.
     andThen (ToString p (text_x el)) (\<lambda>tx.
       Inr (ascii ''\<newline>'' @
            ascii ''        <!-- Red rectangle around leak -->\<newline>'' @
            ascii ''        <rect \<newline>'' @
            ascii ''          x="'' @ x @ ascii ''" \<newline>'' @
            ascii ''          y="'' @ y @ ascii ''" \<newline>'' @
            ascii ''          width="'' @ width @ ascii ''" \<newline>'' @
            ascii ''          height="'' @ height @ ascii ''" \<newline>'' @
            ascii ''          fill="rgba(255, 0, 0, 0.15)" \<newline>'' @
            ascii ''          stroke="red" \<newline>'' @
            ascii ''          stroke-width="5"\<newline>'' @
            ascii ''        />\<newline>'' @
            ascii ''        <!-- Label background -->\<newline>'' @
            ascii ''        <rect \<newline>'' @
            ascii ''          x="'' @ numberToString p (label_x el) @ ascii ''" \<newline>'' @
            ascii ''          y="'' @ numberToString p (label_y el) @ ascii ''" \<newline>'' @
            ascii ''          width="'' @ decimal (label_width el) @ ascii ''" \<newline>'' @
            ascii ''          height="'' @ decimal (label_height el) @ ascii ''" \<newline>'' @
            ascii ''          fill="'' @ label_fill el @ ascii ''" \<newline>'' @
            ascii ''          opacity="'' @ label_opacity el @ ascii ''"\<newline>'' @
            ascii ''        />\<newline>'' @
            ascii ''        <!-- Label text -->\<newline>'' @
            ascii ''        <text \<newline>'' @
            ascii ''          x="'' @ tx @ ascii ''" \<newline>'' @
            ascii ''          y="'' @ numberToString p (text_y el) @ ascii ''" \<newline>'' @
            ascii ''          font-family="Arial, sans-serif" \<newline>'' @
            ascii ''          font-size="16" \<newline>'' @
            ascii ''          fill="white" \<newline>'' @
            ascii ''          font-weight="bold"\<newline>'' @
            ascii ''        >'' @ label_text el @ ascii ''</text>\<newline>'' @
            ascii ''      ''))))))\<close>

text \<open>\<open>leaks.map((leak, index) => ...)\<close>, from the given index on.\<close>

fun svgElements :: "platform \<Rightarrow> nat \<Rightarrow> jsval list \<Rightarrow> error + (svgElement \<times> jsstring) list" where
  "svgElements p index [] = Inr []"
| "svgElements p index (leak # leaks) =
     andThen (leakElement p index leak) (\<lambda>el.
     andThen (renderElement p el) (\<lambda>svg.
     andThen (svgElements p (Suc index) leaks) (\<lambda>rest. Inr ((el, svg) # rest))))"

definition svgOverlay :: "jsstring \<Rightarrow> jsstring \<Rightarrow> jsstring \<Rightarrow> jsstring" where
  \<open>svgOverlay width height elements =
     ascii ''\<newline>'' @
     ascii ''      <svg width="'' @ width @ ascii ''" height="'' @ height @ ascii ''">\<newline>'' @
     ascii ''        '' @ elements @ ascii ''\<newline>'' @
     ascii ''      </svg>\<newline>'' @
     ascii ''    ''\<close>

section \<open>The portable text encoding\<close>

text \<open>
  Modelled from the spec: the portable text encoding (base64) is the codec of the
  runtime's \<open>Buffer\<close> (\<open>buffer.toString("base64")\<close> and \<open>Buffer.from(text, "base64")\<close>),
  which is no part of the repository. Three bytes give four characters of the alphabet,
  six bits each; a last group of one or two bytes is padded with \<open>=\<close>. The decoder
  skips the characters outside the alphabet, accepts \<open>-\<close> and \<open>_\<close> for \<open>+\<close> and \<open>/\<close>,
  and stops at the padding.
\<close>

definition base64Alphabet :: string where
  "base64Alphabet = ''ABCDEFGHIJKLMNOPQRSTUVWXYZabcdefghijklmnopqrstuvwxyz0123456789+/''"

definition base64Char :: "nat \<Rightarrow> 16 word" where
  "base64Char n = of_char (base64Alphabet ! n)"

fun toBase64 :: "bytes \<Rightarrow> jsstring" where
  "toBase64 [] = []"
| "toBase64 [a] =
     [base64Char (unat a div 4), base64Char (unat a mod 4 * 16), 0x3D, 0x3D]"
| "toBase64 [a, b] =
     [base64Char (unat a div 4), base64Char (unat a mod 4 * 16 + unat b div 16),
      base64Char (unat b mod 16 * 4), 0x3D]"
| "toBase64 (a # b # c # rest) =
     [base64Char (unat a div 4), base64Char (unat a mod 4 * 16 + unat b div 16),
      base64Char (unat b mod 16 * 4 + unat c div 64), base64Char (unat c mod 64)]
     @ toBase64 rest"

definition base64Value :: "16 word \<Rightarrow> nat option" where
  "base64Value c =
     map_of (zip (ascii base64Alphabet) [0 ..< 64] @ [(0x2D, 62), (0x5F, 63)]) c"

fun fromSextets :: "nat list \<Rightarrow> bytes" where
  "fromSextets (p # q # r # s # rest) =
     [of_nat (p * 4 + q div 16), of_nat (q mod 16 * 16 + r div 4), of_nat (r mod 4 * 64 + s)]
     @ fromSextets rest"
| "fromSextets [p, q, r] = [of_nat (p * 4 + q div 16), of_nat (q mod 16 * 16 + r div 4)]"
| "fromSextets [p, q] = [of_nat (p * 4 + q div 16)]"
| "fromSextets ps = []"

definition fromBase64 :: "jsstring \<Rightarrow> bytes" where
  "fromBase64 t = fromSextets (List.map_filter base64Value (takeWhile (\<lambda>c. c \<noteq> 0x3D) t))"

section \<open>The renderer (gemini.js, lines 201 to 274)\<close>

text \<open>Whatever is thrown inside \<open>drawLeakAnnotations\<close> is caught: the original image is returned.\<close>

definition drawLeakAnnotations :: "platform \<Rightarrow> bytes \<Rightarrow> jsval list \<Rightarrow> bytes" where
  "drawLeakAnnotations p imageBuffer leaks =
     (case andThen (sharp_metadata p imageBuffer) (\<lambda>(width, height).
           andThen (ToString p width) (\<lambda>w.
           andThen (ToString p height) (\<lambda>h.
           andThen (svgElements p 0 leaks) (\<lambda>elements.
             sharp_composite p imageBuffer (svgOverlay w h (concat (map snd elements)))))))
      of Inl err \<Rightarrow> imageBuffer
       | Inr annotatedBuffer \<Rightarrow> annotatedBuffer)"

section \<open>The pipeline (gemini.js, lines 11 to 193)\<close>

text \<open>
  The calls that leave the process: the HTTP request, and the image library, which the
  renderer enters with the image as soon as it is invoked.
\<close>

datatype call = AxiosPost request | Sharp bytes

type_synonym outcome = "call list \<times> (error + jsstring)"

text \<open>Lines 157 to 187: from the parsed response to the annotated image.\<close>

definition annotate :: "platform \<Rightarrow> bytes \<Rightarrow> jsval \<Rightarrow> outcome" where
  "annotate p imageBuffer leakData =
     (case andThen (getProp leakData (ascii ''leaks'')) highConfidenceLeaks of
        Inl err \<Rightarrow> ([], Inl err)
      | Inr high \<Rightarrow>
          if length high = 0 then ([], Inr (toBase64 imageBuffer))
          else (case logLeaks p high of
                  Inl err \<Rightarrow> ([], Inl err)
                | Inr u \<Rightarrow>
                    ([Sharp imageBuffer],
                     Inr (toBase64 (drawLeakAnnotations p imageBuffer high)))))"

text \<open>
  Lines 135 to 155: an absent or empty response text and a text that does not parse give
  the original image; a text that is no string has no \<open>replace\<close> to call.
\<close>

definition interpretResponse :: "platform \<Rightarrow> bytes \<Rightarrow> jsval \<Rightarrow> outcome" where
  "interpretResponse p imageBuffer answer =
     (if falsy answer then ([], Inr (toBase64 imageBuffer))
      else (case answer of
              VStr t \<Rightarrow>
                (case JSON_parse p (cleanResponse t) of
                   None \<Rightarrow> ([], Inr (toBase64 imageBuffer))
                 | Some leakData \<Rightarrow> annotate p imageBuffer leakData)
            | _ \<Rightarrow> ([], Inl TypeError)))"

definition requestFor :: "platform \<Rightarrow> jsstring \<Rightarrow> bytes \<Rightarrow> jsstring \<Rightarrow> request" where
  "requestFor p key imageBuffer ctx =
     \<lparr>url = (case GEMINI_API_URL p of None \<Rightarrow> ascii ''undefined'' | Some u \<Rightarrow> u)
             @ ascii ''?key='' @ key,
      pressure_context = ctx,
      inline_data = toBase64 imageBuffer\<rparr>"

text \<open>Lines 25 to 187: the body of the \<open>try\<close>.\<close>

definition tryBody :: "platform \<Rightarrow> jsstring \<Rightarrow> bytes \<Rightarrow> jsval \<Rightarrow> jsval \<Rightarrow> outcome" where
  "tryBody p key imageBuffer end1Pressure end2Pressure =
     (case pressureContext p end1Pressure end2Pressure of
        Inl err \<Rightarrow> ([], Inl err)
      | Inr ctx \<Rightarrow>
          (case axios_post p (requestFor p key imageBuffer ctx) of
             Inl err \<Rightarrow> ([AxiosPost (requestFor p key imageBuffer ctx)], Inl err)
           | Inr data \<Rightarrow>
               (case interpretResponse p imageBuffer (responseText data) of
                  (calls, r) \<Rightarrow> (AxiosPost (requestFor p key imageBuffer ctx) # calls, r))))"

text \<open>
  The image is \<open>None\<close> when no buffer is given. An undefined or empty key returns the
  encoded image at once; whatever the body of the \<open>try\<close> throws is caught and gives the
  encoded image as well.
\<close>

definition analyzeWithGemini :: "platform \<Rightarrow> bytes option \<Rightarrow> jsval \<Rightarrow> jsval \<Rightarrow> outcome" where
  "analyzeWithGemini p imageBuffer end1Pressure end2Pressure =
     (case imageBuffer of
        None \<Rightarrow> ([], Inl (Error (ascii ''No image buffer provided!'')))
      | Some buffer \<Rightarrow>
          if length buffer = 0 then ([], Inl (Error (ascii ''No image buffer provided!'')))
          else (case GEMINI_API_KEY p of
                  None \<Rightarrow> ([], Inr (toBase64 buffer))
                | Some key \<Rightarrow>
                    if key = [] then ([], Inr (toBase64 buffer))
                    else (case tryBody p key buffer (defaultNull end1Pressure)
                                 (defaultNull end2Pressure) of
                            (calls, Inl err) \<Rightarrow> (calls, Inr (toBase64 buffer))
                          | (calls, Inr annotated) \<Rightarrow> (calls, Inr annotated))))"

section \<open>A platform for the examples\<close>

text \<open>
  The number conversions of the example platform cover what the examples use: unsigned
  decimal integers are read, integers are printed, \<open>toFixed(2)\<close> rounds half up on the
  absolute value.
\<close>

definition isDigit :: "16 word \<Rightarrow> bool" where
  "isDigit c = (0x30 \<le> c \<and> c \<le> 0x39)"

definition exampleStringToNumber :: "jsstring \<Rightarrow> number" where
  "exampleStringToNumber s =
     (if list_all isDigit s
      then Finite (of_nat (foldl (\<lambda>n c. 10 * n + (unat c - 48)) 0 s))
      else NaN)"

fun exampleNumberToString :: "number \<Rightarrow> jsstring" where
  "exampleNumberToString NaN = ascii ''NaN''"
| "exampleNumberToString (Finite r) =
     (if r < 0 then ascii ''-'' else []) @ decimal (nat \<lfloor>\<bar>r\<bar>\<rfloor>)"

fun exampleToFixed2 :: "number \<Rightarrow> jsstring" where
  "exampleToFixed2 NaN = ascii ''NaN''"
| "exampleToFixed2 (Finite r) =
     (let n = nat \<lfloor>\<bar>r\<bar> * 100 + 1 / 2\<rfloor> in
      (if r < 0 then ascii ''-'' else []) @ decimal (n div 100) @ ascii ''.''
      @ decimal (n mod 100 div 10) @ decimal (n mod 10))"

text \<open>A detection as the service is asked to report it.\<close>

definition detection :: "rat \<Rightarrow> rat \<Rightarrow> rat \<Rightarrow> rat \<Rightarrow> string \<Rightarrow> jsval" where
  "detection x y width height confidence =
     VObj [(ascii ''x'', VNum (Finite x)), (ascii ''y'', VNum (Finite y)),
           (ascii ''width'', VNum (Finite width)), (ascii ''height'', VNum (Finite height)),
           (ascii ''confidence'', VStr (ascii confidence)),
           (ascii ''description'', VStr (ascii ''stain''))]"



text \<open>The response texts of the examples, and \<open>JSON.parse\<close> on them; no other text is used.\<close>

definition noLeaksText :: jsstring where
  \<open>noLeaksText = ascii ''{"leaks":[]}''\<close>

definition mediumLeakText :: jsstring where
  \<open>mediumLeakText = ascii
     ''{"leaks":[{"x":10,"y":10,"width":50,"height":40,"confidence":"medium","description":"stain"}]}''\<close>

definition highLeakText :: jsstring where
  \<open>highLeakText = ascii
     ''{"leaks":[{"x":10,"y":10,"width":50,"height":40,"confidence":"high","description":"stain"}]}''\<close>

definition numberLeaksText :: jsstring where
  \<open>numberLeaksText = ascii ''{"leaks":5}''\<close>

definition truncatedText :: jsstring where
  \<open>truncatedText = ascii ''```json\<newline>{"leaks":[{"x":10,''\<close>

definition exampleParse :: "jsstring \<Rightarrow> jsval option" where
  "exampleParse t =
     (if t = noLeaksText then Some (VObj [(ascii ''leaks'', VArr [])])
      else if t = mediumLeakText
      then Some (VObj [(ascii ''leaks'', VArr [detection 10 10 50 40 ''medium''])])
      else if t = highLeakText
      then Some (VObj [(ascii ''leaks'', VArr [detection 10 10 50 40 ''high''])])
      else if t = numberLeaksText then Some (VObj [(ascii ''leaks'', VNum (Finite 5))])
      else if t = ascii ''null'' then Some VNull
      else None)"

text \<open>The response body that carries the given text.\<close>

definition responseBody :: "jsstring \<Rightarrow> jsval" where
  "responseBody t =
     VObj [(ascii ''candidates'',
       VArr [VObj [(ascii ''content'',
         VObj [(ascii ''parts'', VArr [VObj [(ascii ''text'', VStr t)]])])]])]"

text \<open>
  The example platform: the key, what the service answers to every request, and whether
  the image library can read the image. Its composite puts a JPEG marker before the image.
  An image that cannot be read is rejected by both operations.
\<close>

definition examplePlatform :: "jsstring option \<Rightarrow> error + jsval \<Rightarrow> bool \<Rightarrow> platform" where
  "examplePlatform key answer readable =
     \<lparr>stringToNumber = exampleStringToNumber,
      numberToString = exampleNumberToString,
      toFixed2 = exampleToFixed2,
      JSON_parse = exampleParse,
      GEMINI_API_KEY = key,
      GEMINI_API_URL = Some (ascii ''https://service.example/generate''),
      axios_post = (\<lambda>req. answer),
      sharp_metadata = (\<lambda>image.
        if readable then Inr (VNum (Finite 640), VNum (Finite 480))
        else Inl (Rejected (ascii ''Input buffer contains unsupported image format''))),
      sharp_composite = (\<lambda>image svg.
        if readable then Inr (0xFF # 0xD8 # image)
        else Inl (Rejected (ascii ''Input buffer contains unsupported image format'')))\<rparr>"

section \<open>Notions used by the properties\<close>






section \<open>Basic facts\<close>

lemma andThen_simps [simp]:
  "andThen (Inl e) f = Inl e" "andThen (Inr x) f = f x"
  by (simp_all add: andThen_def)




lemma getProp_array_iff:
  "getProp v k = Inr (VArr xs) \<longleftrightarrow> (\<exists>kvs. v = VObj kvs \<and> map_of kvs k = Some (VArr xs))"
  by (cases v) (auto split: option.split)







subsection \<open>The pipeline, stage by stage\<close>

lemma analyze_with_key:
  assumes "img \<noteq> []" "GEMINI_API_KEY p = Some key" "key \<noteq> []"
  shows "analyzeWithGemini p (Some img) e1 e2 =
     (case tryBody p key img (defaultNull e1) (defaultNull e2) of
        (calls, r) \<Rightarrow> (calls, Inr (case r of Inl err \<Rightarrow> toBase64 img | Inr t \<Rightarrow> t)))"
  using assms by (simp add: analyzeWithGemini_def split: prod.split sum.split)



lemma interpret_unparsed:
  assumes "JSON_parse p (cleanResponse t) = None"
  shows "interpretResponse p img (VStr t) = ([], Inr (toBase64 img))"
  using assms by (simp add: interpretResponse_def)


lemma draw_metadata_fails:
  "sharp_metadata p img = Inl err \<Longrightarrow> drawLeakAnnotations p img leaks = img"
  by (simp add: drawLeakAnnotations_def)

lemma draw_composite_fails:
  "\<forall>svg. \<exists>err. sharp_composite p img svg = Inl err \<Longrightarrow> drawLeakAnnotations p img leaks = img"
proof -
  assume fails: "\<forall>svg. \<exists>err. sharp_composite p img svg = Inl err"
  have never: "sharp_composite p img svg \<noteq> Inr out" for svg out
    using fails by (metis Inl_Inr_False)
  show ?thesis
    unfolding drawLeakAnnotations_def
    using never by (auto simp: andThen_def split: sum.split prod.split)
qed

lemma annotate_result:
  "annotate p img leakData = (calls, Inr t) \<Longrightarrow>
     t = toBase64 img \<or> (\<exists>high. t = toBase64 (drawLeakAnnotations p img high))"
  by (auto simp: annotate_def split: sum.splits if_splits)

lemma interpret_result:
  "interpretResponse p img answer = (calls, Inr t) \<Longrightarrow>
     t = toBase64 img \<or> (\<exists>high. t = toBase64 (drawLeakAnnotations p img high))"
  by (auto simp: interpretResponse_def dest: annotate_result
        split: if_splits jsval.splits option.splits)

lemma tryBody_result:
  "tryBody p key img a b = (calls, Inr t) \<Longrightarrow>
     t = toBase64 img \<or> (\<exists>high. t = toBase64 (drawLeakAnnotations p img high))"
  by (auto simp: tryBody_def dest: interpret_result split: sum.splits prod.splits)

lemma analyze_result:
  assumes "img \<noteq> []"
  shows "\<exists>t. snd (analyzeWithGemini p (Some img) e1 e2) = Inr t \<and>
     (t = toBase64 img \<or> (\<exists>high. t = toBase64 (drawLeakAnnotations p img high)))"
proof (cases "\<exists>key. GEMINI_API_KEY p = Some key \<and> key \<noteq> []")
  case False
  then show ?thesis
    using assms by (auto simp: analyzeWithGemini_def split: option.split)
next
  case True
  then obtain key where key: "GEMINI_API_KEY p = Some key" "key \<noteq> []" by blast
  obtain calls r where body: "tryBody p key img (defaultNull e1) (defaultNull e2) = (calls, r)"
    by (cases "tryBody p key img (defaultNull e1) (defaultNull e2)")
  show ?thesis
  proof (cases r)
    case (Inl err)
    with body key assms show ?thesis by (simp add: analyze_with_key)
  next
    case (Inr t)
    with body have "tryBody p key img (defaultNull e1) (defaultNull e2) = (calls, Inr t)" by simp
    from tryBody_result [OF this] Inr body key assms show ?thesis
      by (simp add: analyze_with_key)
  qed
qed

lemma analyze_absent:
  "analyzeWithGemini p None e1 e2 = ([], Inl (Error (ascii ''No image buffer provided!'')))"
  "analyzeWithGemini p (Some []) e1 e2 = ([], Inl (Error (ascii ''No image buffer provided!'')))"
  by (simp_all add: analyzeWithGemini_def)

lemma analyze_service_fails:
  assumes "img \<noteq> []" "\<forall>req. \<exists>err. axios_post p req = Inl err"
  shows "snd (analyzeWithGemini p (Some img) e1 e2) = Inr (toBase64 img)"
proof (cases "\<exists>key. GEMINI_API_KEY p = Some key \<and> key \<noteq> []")
  case False
  then show ?thesis
    using assms(1) by (auto simp: analyzeWithGemini_def split: option.split)
next
  case True
  then obtain key where key: "GEMINI_API_KEY p = Some key" "key \<noteq> []" by blast
  have "\<exists>err. snd (tryBody p key img (defaultNull e1) (defaultNull e2)) = Inl err"
  proof (cases "pressureContext p (defaultNull e1) (defaultNull e2)")
    case (Inl err)
    then show ?thesis by (simp add: tryBody_def)
  next
    case (Inr ctx)
    from assms(2) obtain err where "axios_post p (requestFor p key img ctx) = Inl err" by blast
    with Inr show ?thesis by (simp add: tryBody_def)
  qed
  then show ?thesis
    using assms(1) key by (auto simp: analyze_with_key split: prod.split)
qed

lemma analyze_render_fails:
  assumes "img \<noteq> []" "\<forall>leaks. drawLeakAnnotations p img leaks = img"
  shows "snd (analyzeWithGemini p (Some img) e1 e2) = Inr (toBase64 img)"
  using analyze_result [OF assms(1), of p e1 e2] assms(2) by auto

lemma analyze_unparsed:
  assumes "img \<noteq> []"
    and "\<forall>req. \<exists>data t. axios_post p req = Inr data \<and> responseText data = VStr t
           \<and> JSON_parse p (cleanResponse t) = None"
  shows "snd (analyzeWithGemini p (Some img) e1 e2) = Inr (toBase64 img)"
proof (cases "\<exists>key. GEMINI_API_KEY p = Some key \<and> key \<noteq> []")
  case False
  then show ?thesis
    using assms(1) by (auto simp: analyzeWithGemini_def split: option.split)
next
  case True
  then obtain key where key: "GEMINI_API_KEY p = Some key" "key \<noteq> []" by blast
  have "snd (tryBody p key img (defaultNull e1) (defaultNull e2)) \<in>
          {Inr (toBase64 img)} \<union> range Inl"
  proof (cases "pressureContext p (defaultNull e1) (defaultNull e2)")
    case (Inl err)
    then show ?thesis by (simp add: tryBody_def)
  next
    case (Inr ctx)
    from assms(2) obtain data t where
      "axios_post p (requestFor p key img ctx) = Inr data" "responseText data = VStr t"
      "JSON_parse p (cleanResponse t) = None"
      by blast
    with Inr show ?thesis by (simp add: tryBody_def interpret_unparsed)
  qed
  then show ?thesis
    using assms(1) key by (auto simp: analyze_with_key split: prod.split)
qed

lemma annotate_not_array:
  assumes "\<forall>leaks. getProp leakData (ascii ''leaks'') \<noteq> Inr (VArr leaks)"
  shows "\<exists>r. annotate p img leakData = ([], r) \<and> (r = Inr (toBase64 img) \<or> (\<exists>err. r = Inl err))"
proof (cases "getProp leakData (ascii ''leaks'')")
  case (Inl err)
  then show ?thesis by (simp add: annotate_def)
next
  case (Inr v)
  with assms have "\<forall>leaks. v \<noteq> VArr leaks" by auto
  then have "highConfidenceLeaks v = Inr [] \<or> highConfidenceLeaks v = Inl TypeError"
    by (cases v) simp_all
  with Inr show ?thesis by (auto simp: annotate_def)
qed

lemma analyze_not_array:
  assumes "img \<noteq> []" and "axios_post p = (\<lambda>req. Inr data)"
    and "responseText data = VStr t"
    and "JSON_parse p (cleanResponse t) = Some leakData"
    and "\<forall>leaks. getProp leakData (ascii ''leaks'') \<noteq> Inr (VArr leaks)"
  shows "snd (analyzeWithGemini p (Some img) e1 e2) = Inr (toBase64 img)
     \<and> Sharp img \<notin> set (fst (analyzeWithGemini p (Some img) e1 e2))"
proof (cases "\<exists>key. GEMINI_API_KEY p = Some key \<and> key \<noteq> []")
  case False
  then show ?thesis
    using assms(1) by (auto simp: analyzeWithGemini_def split: option.split)
next
  case True
  then obtain key where key: "GEMINI_API_KEY p = Some key" "key \<noteq> []" by blast
  from annotate_not_array [OF assms(5)] obtain r where
    r: "annotate p img leakData = ([], r)" "r = Inr (toBase64 img) \<or> (\<exists>err. r = Inl err)"
    by blast
  have "\<exists>r. interpretResponse p img (VStr t) = ([], r)
          \<and> (r = Inr (toBase64 img) \<or> (\<exists>err. r = Inl err))"
    using r assms(4) by (auto simp: interpretResponse_def)
  then have "\<exists>calls r. tryBody p key img (defaultNull e1) (defaultNull e2) = (calls, r)
          \<and> Sharp img \<notin> set calls \<and> (r = Inr (toBase64 img) \<or> (\<exists>err. r = Inl err))"
    using assms(2,3) by (auto simp: tryBody_def split: sum.split)
  then show ?thesis
    using assms(1) key by (auto simp: analyze_with_key)
qed


subsection \<open>The overlay\<close>



















subsection \<open>The encoding\<close>

lemma alphabet_facts:
  "length (ascii base64Alphabet) = 64" "distinct (ascii base64Alphabet)"
  "0x3D \<notin> set (ascii base64Alphabet)"
  "0x2D \<notin> set (ascii base64Alphabet)" "0x5F \<notin> set (ascii base64Alphabet)"
  by (simp_all add: base64Alphabet_def ascii_def)

lemma base64Char_nth: "n < 64 \<Longrightarrow> base64Char n = ascii base64Alphabet ! n"
  using alphabet_facts(1) by (simp add: base64Char_def ascii_def)

lemma base64Value_Char: "n < 64 \<Longrightarrow> base64Value (base64Char n) = Some n"
proof -
  assume n: "n < 64"
  have "map_of (zip (ascii base64Alphabet) [0 ..< 64]) (ascii base64Alphabet ! n) = Some ([0 ..< 64] ! n)"
    using n alphabet_facts by (intro map_of_zip_nth) simp_all
  then show ?thesis
    using n by (simp add: base64Value_def base64Char_nth map_add_def)
qed

lemma base64Char_not_pad: "n < 64 \<Longrightarrow> base64Char n \<noteq> 0x3D"
  using alphabet_facts(1,3) by (metis base64Char_nth nth_mem)

lemma byte_bound: "unat (a :: 8 word) < 256"
  using unsigned_less [of a] by simp

lemma fromBase64_group:
  assumes "n1 < 64" "n2 < 64" "n3 < 64" "n4 < 64"
  shows "fromBase64 (base64Char n1 # base64Char n2 # base64Char n3 # base64Char n4 # t) =
     [of_nat (n1 * 4 + n2 div 16), of_nat (n2 mod 16 * 16 + n3 div 4), of_nat (n3 mod 4 * 64 + n4)]
     @ fromBase64 t"
  using assms
  by (simp add: fromBase64_def List.map_filter_simps base64Value_Char base64Char_not_pad)

lemma fromBase64_last2:
  assumes "n1 < 64" "n2 < 64" "n3 < 64"
  shows "fromBase64 [base64Char n1, base64Char n2, base64Char n3, 0x3D] =
     [of_nat (n1 * 4 + n2 div 16), of_nat (n2 mod 16 * 16 + n3 div 4)]"
  using assms
  by (simp add: fromBase64_def List.map_filter_simps base64Value_Char base64Char_not_pad)

lemma fromBase64_last1:
  assumes "n1 < 64" "n2 < 64"
  shows "fromBase64 [base64Char n1, base64Char n2, 0x3D, 0x3D] = [of_nat (n1 * 4 + n2 div 16)]"
  using assms
  by (simp add: fromBase64_def List.map_filter_simps base64Value_Char base64Char_not_pad)

lemma sextet_arith:
  fixes a b c :: nat
  assumes "a < 256" "b < 256" "c < 256"
  shows "a div 4 < 64" "a mod 4 * 16 + b div 16 < 64" "b mod 16 * 4 + c div 64 < 64"
    "c mod 64 < 64" "a mod 4 * 16 < 64" "b mod 16 * 4 < 64"
    "a div 4 * 4 + (a mod 4 * 16 + b div 16) div 16 = a"
    "(a mod 4 * 16 + b div 16) mod 16 * 16 + (b mod 16 * 4 + c div 64) div 4 = b"
    "(b mod 16 * 4 + c div 64) mod 4 * 64 + c mod 64 = c"
    "a div 4 * 4 + (a mod 4 * 16) div 16 = a"
    "(a mod 4 * 16 + b div 16) mod 16 * 16 + (b mod 16 * 4) div 4 = b"
  using assms by auto

lemma base64_roundtrip: "fromBase64 (toBase64 bs) = bs"
proof (induction bs rule: toBase64.induct)
  case 1
  show ?case by (simp add: fromBase64_def List.map_filter_simps)
next
  case (2 a)
  show ?case
    using sextet_arith [OF byte_bound [of a] byte_bound [of a] byte_bound [of a]]
    by (simp add: fromBase64_last1)
next
  case (3 a b)
  show ?case
    using sextet_arith [OF byte_bound [of a] byte_bound [of b] byte_bound [of b]]
    by (simp add: fromBase64_last2)
next
  case (4 a b c rest)
  show ?case
    using sextet_arith [OF byte_bound [of a] byte_bound [of b] byte_bound [of c]] 4
    by (simp add: fromBase64_group)
qed

subsection \<open>The examples, evaluated\<close>

lemma text_of_body: "responseText (responseBody t) = VStr t"
  by (simp add: responseText_def responseBody_def ascii_def)



lemma parse_truncated: "exampleParse (cleanResponse truncatedText) = None"
  by code_simp


lemma parse_number:
  "exampleParse (cleanResponse numberLeaksText) = Some (VObj [(ascii ''leaks'', VNum (Finite 5))])"
  by code_simp






section \<open>The confidence filter\<close>



section \<open>Responses that do not parse\<close>

text \<open>
  Claim C2. When the text of the response, with the code fences removed and trimmed, does
  not parse as JSON, \<open>analyzeWithGemini\<close> raises nothing: it returns the base64 text of the
  source image.
\<close>

theorem unparseable_response_passes_through:
  assumes "img \<noteq> []" and "axios_post p = (\<lambda>req. Inr data)"
    and "responseText data = VStr t"
    and "JSON_parse p (cleanResponse t) = None"
  shows "snd (analyzeWithGemini p (Some img) e1 e2) = Inr (toBase64 img)"
proof (cases "\<exists>key. GEMINI_API_KEY p = Some key \<and> key \<noteq> []")
  case False
  then show ?thesis
    using assms(1) by (auto simp: analyzeWithGemini_def split: option.split)
next
  case True
  then obtain key where key: "GEMINI_API_KEY p = Some key" "key \<noteq> []" by blast
  have "snd (tryBody p key img (defaultNull e1) (defaultNull e2)) \<in>
          {Inr (toBase64 img)} \<union> range Inl"
    using assms(2,3,4)
    by (auto simp: tryBody_def interpret_unparsed split: sum.split)
  then show ?thesis
    using assms(1) key by (auto simp: analyze_with_key split: prod.split)
qed

theorem unparseable_response_passes_through_witness:
  "exampleParse (cleanResponse truncatedText) = None
   \<and> snd (analyzeWithGemini
        (examplePlatform (Some (ascii ''key'')) (Inr (responseBody truncatedText)) True)
        (Some [1, 2, 3]) VUndefined VUndefined) = Inr (toBase64 [1, 2, 3])"
proof -
  let ?P = "examplePlatform (Some (ascii ''key'')) (Inr (responseBody truncatedText)) True"
  have h1: "[1, 2, 3] \<noteq> ([] :: bytes)" by simp
  have h2: "axios_post ?P = (\<lambda>req. Inr (responseBody truncatedText))"
    by (simp add: examplePlatform_def)
  have h3: "responseText (responseBody truncatedText) = VStr truncatedText"
    by (rule text_of_body)
  have h4: "JSON_parse ?P (cleanResponse truncatedText) = None"
    by (simp add: examplePlatform_def parse_truncated)
  from unparseable_response_passes_through [OF h1 h2 h3 h4] parse_truncated
  show ?thesis by simp
qed

section \<open>The pressure context\<close>



section \<open>No key\<close>

text \<open>
  Claim C4. With a non-empty image and no key configured (the variable undefined or
  empty), \<open>analyzeWithGemini\<close> returns exactly the base64 text of the image and makes no
  call: no HTTP request, no rendering.
\<close>

theorem missing_key_passes_through:
  assumes "img \<noteq> []" and "GEMINI_API_KEY p = None \<or> GEMINI_API_KEY p = Some []"
  shows "analyzeWithGemini p (Some img) e1 e2 = ([], Inr (toBase64 img))"
  using assms by (auto simp: analyzeWithGemini_def)

theorem missing_key_passes_through_witness:
  "analyzeWithGemini (examplePlatform None (Inr (responseBody highLeakText)) True)
     (Some [1, 2, 3]) (VNum (Finite 20)) (VNum (Finite 16)) = ([], Inr (toBase64 [1, 2, 3]))"
proof -
  let ?P = "examplePlatform None (Inr (responseBody highLeakText)) True"
  have h1: "[1, 2, 3] \<noteq> ([] :: bytes)" by simp
  have h2: "GEMINI_API_KEY ?P = None \<or> GEMINI_API_KEY ?P = Some []"
    by (simp add: examplePlatform_def)
  from missing_key_passes_through [OF h1 h2] show ?thesis .
qed

section \<open>Errors that reach the caller\<close>

text \<open>
  Claim C5. \<open>analyzeWithGemini\<close> raises exactly when the image buffer is absent or empty.
  With a non-empty image every other failure ends in the base64 text of the original
  image: a missing key, a request that fails or times out, a response that does not parse,
  an image that the library cannot read or cannot composite.
\<close>

theorem only_missing_image_raises:
  "((\<exists>err. snd (analyzeWithGemini p imageBuffer e1 e2) = Inl err)
      \<longleftrightarrow> (imageBuffer = None \<or> imageBuffer = Some []))
   \<and> (imageBuffer = None \<or> imageBuffer = Some [] \<longrightarrow>
        analyzeWithGemini p imageBuffer e1 e2 =
          ([], Inl (Error (ascii ''No image buffer provided!''))))
   \<and> (img \<noteq> [] \<longrightarrow>
        (GEMINI_API_KEY p = None \<longrightarrow>
           snd (analyzeWithGemini p (Some img) e1 e2) = Inr (toBase64 img))
      \<and> ((\<forall>req. \<exists>err. axios_post p req = Inl err) \<longrightarrow>
           snd (analyzeWithGemini p (Some img) e1 e2) = Inr (toBase64 img))
      \<and> ((\<forall>req. \<exists>data t. axios_post p req = Inr data \<and> responseText data = VStr t
             \<and> JSON_parse p (cleanResponse t) = None) \<longrightarrow>
           snd (analyzeWithGemini p (Some img) e1 e2) = Inr (toBase64 img))
      \<and> ((\<exists>err. sharp_metadata p img = Inl err) \<longrightarrow>
           snd (analyzeWithGemini p (Some img) e1 e2) = Inr (toBase64 img))
      \<and> ((\<forall>svg. \<exists>err. sharp_composite p img svg = Inl err) \<longrightarrow>
           snd (analyzeWithGemini p (Some img) e1 e2) = Inr (toBase64 img)))"
proof -
  have raises: "(\<exists>err. snd (analyzeWithGemini p imageBuffer e1 e2) = Inl err)
      \<longleftrightarrow> (imageBuffer = None \<or> imageBuffer = Some [])"
  proof (cases imageBuffer)
    case None
    then show ?thesis by (simp add: analyze_absent)
  next
    case (Some buffer)
    show ?thesis
    proof (cases "buffer = []")
      case True
      with Some show ?thesis by (simp add: analyze_absent)
    next
      case False
      from analyze_result [OF False, of p e1 e2] Some False show ?thesis by auto
    qed
  qed
  have key: "snd (analyzeWithGemini p (Some img) e1 e2) = Inr (toBase64 img)"
    if "img \<noteq> []" "GEMINI_API_KEY p = None"
    using that by (simp add: analyzeWithGemini_def)
  have service: "snd (analyzeWithGemini p (Some img) e1 e2) = Inr (toBase64 img)"
    if "img \<noteq> []" "\<forall>req. \<exists>err. axios_post p req = Inl err"
    using that by (rule analyze_service_fails)
  have parse: "snd (analyzeWithGemini p (Some img) e1 e2) = Inr (toBase64 img)"
    if "img \<noteq> []" "\<forall>req. \<exists>data t. axios_post p req = Inr data \<and> responseText data = VStr t
             \<and> JSON_parse p (cleanResponse t) = None"
    using that by (rule analyze_unparsed)
  have metadata: "snd (analyzeWithGemini p (Some img) e1 e2) = Inr (toBase64 img)"
    if "img \<noteq> []" "\<exists>err. sharp_metadata p img = Inl err"
    using that by (auto intro!: analyze_render_fails simp: draw_metadata_fails)
  have composite: "snd (analyzeWithGemini p (Some img) e1 e2) = Inr (toBase64 img)"
    if "img \<noteq> []" "\<forall>svg. \<exists>err. sharp_composite p img svg = Inl err"
    using that by (auto intro!: analyze_render_fails simp: draw_composite_fails)
  have input: "analyzeWithGemini p imageBuffer e1 e2 =
      ([], Inl (Error (ascii ''No image buffer provided!'')))"
    if "imageBuffer = None \<or> imageBuffer = Some []"
    using that by (auto simp: analyze_absent)
  from raises input key service parse metadata composite show ?thesis
    by blast
qed

theorem only_missing_image_raises_witness:
  "(\<exists>err. snd (analyzeWithGemini (examplePlatform None (Inr VNull) True) None VNull VNull) = Inl err)
   \<and> snd (analyzeWithGemini (examplePlatform None (Inr VNull) True)
        (Some [1, 2, 3]) VNull VNull) = Inr (toBase64 [1, 2, 3])
   \<and> snd (analyzeWithGemini
        (examplePlatform (Some (ascii ''key''))
           (Inl (Rejected (ascii ''timeout of 90000ms exceeded''))) True)
        (Some [1, 2, 3]) VNull VNull) = Inr (toBase64 [1, 2, 3])
   \<and> snd (analyzeWithGemini
        (examplePlatform (Some (ascii ''key'')) (Inr (responseBody truncatedText)) True)
        (Some [1, 2, 3]) VNull VNull) = Inr (toBase64 [1, 2, 3])
   \<and> snd (analyzeWithGemini
        (examplePlatform (Some (ascii ''key'')) (Inr (responseBody highLeakText)) False)
        (Some [1, 2, 3]) VNull VNull) = Inr (toBase64 [1, 2, 3])"
proof -
  let ?none = "examplePlatform None (Inr VNull) True"
  let ?down = "examplePlatform (Some (ascii ''key''))
     (Inl (Rejected (ascii ''timeout of 90000ms exceeded''))) True"
  let ?cut = "examplePlatform (Some (ascii ''key'')) (Inr (responseBody truncatedText)) True"
  let ?unread = "examplePlatform (Some (ascii ''key'')) (Inr (responseBody highLeakText)) False"
  have img: "[1, 2, 3] \<noteq> ([] :: bytes)" by simp
  have absent: "\<exists>err. snd (analyzeWithGemini ?none None VNull VNull) = Inl err"
    using only_missing_image_raises [of ?none None VNull VNull "[]"] by simp
  have key: "GEMINI_API_KEY ?none = None"
    by (simp add: examplePlatform_def)
  have down: "\<forall>req. \<exists>err. axios_post ?down req = Inl err"
    by (simp add: examplePlatform_def)
  have cut: "\<forall>req. \<exists>data t. axios_post ?cut req = Inr data \<and> responseText data = VStr t
      \<and> JSON_parse ?cut (cleanResponse t) = None"
  proof (intro allI exI conjI)
    fix req
    show "axios_post ?cut req = Inr (responseBody truncatedText)"
      by (simp add: examplePlatform_def)
    show "responseText (responseBody truncatedText) = VStr truncatedText"
      by (rule text_of_body)
    show "JSON_parse ?cut (cleanResponse truncatedText) = None"
      by (simp add: examplePlatform_def parse_truncated)
  qed
  have meta: "\<exists>err. sharp_metadata ?unread [1, 2, 3] = Inl err"
    by (simp add: examplePlatform_def)
  have comp: "\<forall>svg. \<exists>err. sharp_composite ?unread [1, 2, 3] svg = Inl err"
    by (simp add: examplePlatform_def)
  from only_missing_image_raises [of ?none None VNull VNull "[1, 2, 3]"] img key
  have r1: "snd (analyzeWithGemini ?none (Some [1, 2, 3]) VNull VNull) = Inr (toBase64 [1, 2, 3])"
    by blast
  from only_missing_image_raises [of ?down None VNull VNull "[1, 2, 3]"] img down
  have r2: "snd (analyzeWithGemini ?down (Some [1, 2, 3]) VNull VNull) = Inr (toBase64 [1, 2, 3])"
    by blast
  from only_missing_image_raises [of ?cut None VNull VNull "[1, 2, 3]"] img cut
  have r3: "snd (analyzeWithGemini ?cut (Some [1, 2, 3]) VNull VNull) = Inr (toBase64 [1, 2, 3])"
    by blast
  from only_missing_image_raises [of ?unread None VNull VNull "[1, 2, 3]"] img meta comp
  have r4: "snd (analyzeWithGemini ?unread (Some [1, 2, 3]) VNull VNull) = Inr (toBase64 [1, 2, 3])"
    by blast
  from absent r1 r2 r3 r4 show ?thesis by (intro conjI)
qed

section \<open>The labels of the overlay\<close>




section \<open>The place of a label\<close>



section \<open>The label background\<close>




section \<open>The text encoding, there and back\<close>

text \<open>
  Claim C9. Decoding the base64 text of a buffer gives the buffer back, and every text
  that \<open>analyzeWithGemini\<close> returns is the base64 text of a buffer (the annotated image
  or the source image), which decoding recovers.
\<close>

theorem base64_round_trip:
  "fromBase64 (toBase64 b) = b
   \<and> (snd (analyzeWithGemini p imageBuffer e1 e2) = Inr t \<longrightarrow>
        (\<exists>out. t = toBase64 out \<and> fromBase64 t = out))"
proof -
  have "\<exists>out. t = toBase64 out" if "snd (analyzeWithGemini p imageBuffer e1 e2) = Inr t"
  proof (cases "imageBuffer = None \<or> imageBuffer = Some []")
    case True
    with that show ?thesis by (auto simp: analyze_absent)
  next
    case False
    then obtain img where "imageBuffer = Some img" "img \<noteq> []" by auto
    with analyze_result [of img p e1 e2] that show ?thesis by auto
  qed
  then show ?thesis by (auto simp: base64_roundtrip)
qed

theorem base64_round_trip_witness:
  "snd (analyzeWithGemini (examplePlatform None (Inr VNull) True) (Some [1, 2, 3]) VNull VNull)
     = Inr (ascii ''AQID'')
   \<and> fromBase64 (ascii ''AQID'') = [1, 2, 3]
   \<and> fromBase64 (toBase64 [0xFF, 0xD8, 1, 2, 3]) = [0xFF, 0xD8, 1, 2, 3]"
proof -
  let ?P = "examplePlatform None (Inr VNull) True"
  have enc: "toBase64 [1, 2, 3] = ascii ''AQID''"
    by code_simp
  have "snd (analyzeWithGemini ?P (Some [1, 2, 3]) VNull VNull) = Inr (toBase64 [1, 2, 3])"
    by (simp add: analyzeWithGemini_def examplePlatform_def del: toBase64.simps)
  then have res: "snd (analyzeWithGemini ?P (Some [1, 2, 3]) VNull VNull) = Inr (ascii ''AQID'')"
    by (simp only: enc)
  from base64_round_trip [of "[1, 2, 3]" ?P "Some [1, 2, 3]" VNull VNull "ascii ''AQID''"] res enc
  have dec: "fromBase64 (ascii ''AQID'') = [1, 2, 3]"
    by metis
  from base64_round_trip [of "[0xFF, 0xD8, 1, 2, 3]" ?P "Some [1, 2, 3]" VNull VNull "ascii ''AQID''"]
  have "fromBase64 (toBase64 [0xFF, 0xD8, 1, 2, 3]) = [0xFF, 0xD8, 1, 2, 3]"
    by (rule conjunct1)
  with res dec show ?thesis by (intro conjI)
qed

section \<open>Responses without a list of leaks\<close>

text \<open>
  Claim C10. When the response parses to a value that is not an object with an array
  under \<open>leaks\<close>, \<open>analyzeWithGemini\<close> returns the base64 text of the source image and
  the renderer is not invoked. An object without the key counts as an empty list; a
  value under the key that is neither an array nor \<open>null\<close> raises a TypeError inside,
  which the handler absorbs.
\<close>

theorem malformed_leaks_pass_through:
  assumes "img \<noteq> []" and "axios_post p = (\<lambda>req. Inr data)"
    and "responseText data = VStr t"
    and "JSON_parse p (cleanResponse t) = Some leakData"
    and "\<nexists>kvs leaks. leakData = VObj kvs \<and> map_of kvs (ascii ''leaks'') = Some (VArr leaks)"
  shows "snd (analyzeWithGemini p (Some img) e1 e2) = Inr (toBase64 img)
     \<and> Sharp img \<notin> set (fst (analyzeWithGemini p (Some img) e1 e2))
     \<and> (\<forall>kvs. leakData = VObj kvs \<and> map_of kvs (ascii ''leaks'') = None \<longrightarrow>
           annotate p img leakData = ([], Inr (toBase64 img)))
     \<and> (\<forall>kvs v. leakData = VObj kvs \<and> map_of kvs (ascii ''leaks'') = Some v \<and> v \<noteq> VNull
           \<and> v \<noteq> VUndefined \<longrightarrow> annotate p img leakData = ([], Inl TypeError))"
proof -
  have no_array: "\<forall>leaks. getProp leakData (ascii ''leaks'') \<noteq> Inr (VArr leaks)"
    using assms(5) by (simp add: getProp_array_iff)
  have absent: "annotate p img leakData = ([], Inr (toBase64 img))"
    if "leakData = VObj kvs" "map_of kvs (ascii ''leaks'') = None" for kvs
    using that by (simp add: annotate_def)
  have present: "annotate p img leakData = ([], Inl TypeError)"
    if "leakData = VObj kvs" "map_of kvs (ascii ''leaks'') = Some v" "v \<noteq> VNull"
      "v \<noteq> VUndefined" for kvs v
  proof -
    from that assms(5) have "\<forall>leaks. v \<noteq> VArr leaks" by auto
    with that(3,4) have "highConfidenceLeaks v = Inl TypeError" by (cases v) simp_all
    with that(1,2) show ?thesis by (simp add: annotate_def)
  qed
  from analyze_not_array [OF assms(1-4) no_array] absent present show ?thesis by blast
qed

theorem malformed_leaks_pass_through_witness:
  "snd (analyzeWithGemini
        (examplePlatform (Some (ascii ''key'')) (Inr (responseBody numberLeaksText)) True)
        (Some [1, 2, 3]) VNull VNull) = Inr (toBase64 [1, 2, 3])
   \<and> annotate (examplePlatform (Some (ascii ''key'')) (Inr (responseBody numberLeaksText)) True)
        [1, 2, 3] (VObj [(ascii ''leaks'', VNum (Finite 5))]) = ([], Inl TypeError)"
proof -
  let ?P = "examplePlatform (Some (ascii ''key'')) (Inr (responseBody numberLeaksText)) True"
  let ?data = "VObj [(ascii ''leaks'', VNum (Finite 5))]"
  have h1: "[1, 2, 3] \<noteq> ([] :: bytes)" by simp
  have h2: "axios_post ?P = (\<lambda>req. Inr (responseBody numberLeaksText))"
    by (simp add: examplePlatform_def)
  have h3: "responseText (responseBody numberLeaksText) = VStr numberLeaksText"
    by (rule text_of_body)
  have h4: "JSON_parse ?P (cleanResponse numberLeaksText) = Some ?data"
    by (simp add: examplePlatform_def parse_number)
  have h5: "\<nexists>kvs leaks. ?data = VObj kvs \<and> map_of kvs (ascii ''leaks'') = Some (VArr leaks)"
    by simp
  from malformed_leaks_pass_through [OF h1 h2 h3 h4 h5, of VNull VNull]
  have res: "snd (analyzeWithGemini ?P (Some [1, 2, 3]) VNull VNull) = Inr (toBase64 [1, 2, 3])"
    and raised: "\<forall>kvs v. ?data = VObj kvs \<and> map_of kvs (ascii ''leaks'') = Some v \<and> v \<noteq> VNull
           \<and> v \<noteq> VUndefined \<longrightarrow> annotate ?P [1, 2, 3] ?data = ([], Inl TypeError)"
    by blast+
  from raised have "annotate ?P [1, 2, 3] ?data = ([], Inl TypeError)"
    by simp
  with res show ?thesis by (intro conjI)
qed

end
